theory Spec2Isabelle
  imports Main "HOL-Library.AList"
begin

section \<open>Python strings\<close>

text \<open>
  A Python \<open>str\<close> is modelled as a \<open>string\<close>: a list of characters whose code points
  lie in 0..255 (Latin-1); text with other characters is outside the model. On that
  range the predicates below are the ones of CPython's \<open>str.isspace\<close>, \<open>str.isalpha\<close> and
  \<open>str.lower\<close>; \<open>\s\<close> of the \<open>re\<close> module and the separator test of \<open>str.split()\<close> use the
  same whitespace test as \<open>str.isspace\<close>.
\<close>

definition code_point :: "char \<Rightarrow> nat" where
  "code_point c = of_char c"

definition isspace :: "char \<Rightarrow> bool" where
  "isspace c =
     (let n = code_point c
      in (9 \<le> n \<and> n \<le> 13) \<or> (28 \<le> n \<and> n \<le> 32) \<or> n = 133 \<or> n = 160)"

definition isalpha :: "char \<Rightarrow> bool" where
  "isalpha c =
     (let n = code_point c
      in (65 \<le> n \<and> n \<le> 90) \<or> (97 \<le> n \<and> n \<le> 122) \<or> n = 170 \<or> n = 181 \<or> n = 186
         \<or> (192 \<le> n \<and> n \<le> 214) \<or> (216 \<le> n \<and> n \<le> 246) \<or> 248 \<le> n)"

definition lower_char :: "char \<Rightarrow> char" where
  "lower_char c =
     (let n = code_point c
      in if (65 \<le> n \<and> n \<le> 90) \<or> (192 \<le> n \<and> n \<le> 214) \<or> (216 \<le> n \<and> n \<le> 222)
         then char_of (n + 32) else c)"

definition lower :: "string \<Rightarrow> string" where
  "lower s = map lower_char s"

text \<open>
  \<open>s.split()\<close>: the scan of CPython, left to right. \<open>cur\<close> is the token being read;
  a whitespace character closes it, and empty tokens are never emitted.
\<close>

fun split_scan :: "string \<Rightarrow> string \<Rightarrow> string list" where
  "split_scan cur [] = (if cur = [] then [] else [cur])"
| "split_scan cur (c # cs) =
     (if isspace c then (if cur = [] then split_scan [] cs else cur # split_scan [] cs)
      else split_scan (cur @ [c]) cs)"

definition split :: "string \<Rightarrow> string list" where
  "split s = split_scan [] s"

text \<open>
  \<open>s.rsplit(sep, 1)\<close> for a one-character separator: cut at the last occurrence of
  \<open>sep\<close>, or the whole string alone when \<open>sep\<close> does not occur.
\<close>

definition rsplit1 :: "string \<Rightarrow> char \<Rightarrow> string list" where
  "rsplit1 s sep =
     (if sep \<in> set s
      then [rev (tl (dropWhile (\<lambda>c. c \<noteq> sep) (rev s))), rev (takeWhile (\<lambda>c. c \<noteq> sep) (rev s))]
      else [s])"

section \<open>Exceptions\<close>

text \<open>
  The exceptions that the modelled code raises or handles. \<open>OperationalError\<close> is
  \<open>sqlite3.OperationalError\<close> with its message, \<open>Exception\<close> an instance of the base class
  itself, as \<open>raise Exception(...)\<close> makes one; \<open>OtherError\<close> stands for an exception of any
  other class.
\<close>

datatype exn =
    IndexError
  | ValueError
  | OperationalError string
  | Exception string
  | OtherError string

section \<open>Boundary merge and tokenisation\<close>

text \<open>
  One iteration of the loop of \<open>merge_split_words\<close>: from the carried buffer and the next
  chunk to the emitted chunk and the new buffer. \<open>chunk[-1]\<close> raises \<open>IndexError\<close> on the
  empty string, and so does \<open>chunk.split()[-1]\<close> on an empty list.
\<close>

definition merge_step :: "string \<Rightarrow> string \<Rightarrow> exn + (string \<times> string)" where
  "merge_step buffer0 chunk0 =
     (let (chunk, buffer) = (if buffer0 \<noteq> [] then (buffer0 @ chunk0, []) else (chunk0, buffer0))
      in if chunk = [] then Inl IndexError
         else if \<not> isspace (last chunk) \<and> \<not> isalpha (last chunk)
         then (if split chunk = [] then Inl IndexError
               else Inr (hd (rsplit1 chunk CHR '' ''), last (split chunk)))
         else Inr (chunk, buffer))"

fun merge_loop :: "string list \<Rightarrow> string \<Rightarrow> string list \<Rightarrow> exn + (string list \<times> string)" where
  "merge_loop merged_chunks buffer [] = Inr (merged_chunks, buffer)"
| "merge_loop merged_chunks buffer (chunk # chunks) =
     (case merge_step buffer chunk of
        Inl e \<Rightarrow> Inl e
      | Inr (chunk', buffer') \<Rightarrow> merge_loop (merged_chunks @ [chunk']) buffer' chunks)"

definition merge_split_words :: "string list \<Rightarrow> exn + string list" where
  "merge_split_words chunks =
     (case merge_loop [] [] chunks of
        Inl e \<Rightarrow> Inl e
      | Inr (merged_chunks, buffer) \<Rightarrow>
          Inr (if buffer \<noteq> [] then merged_chunks @ [buffer] else merged_chunks))"

text \<open>
  \<open>re.sub(pattern, repl, text)\<close> for a pattern that is one character class: every
  character of the class is a match of length one and is replaced by \<open>repl\<close>.
  \<open>non_alpha_space\<close> is the class \<open>[^a-zA-Z\s]\<close>.
\<close>

definition non_alpha_space :: "char \<Rightarrow> bool" where
  "non_alpha_space c =
     (let n = code_point c
      in \<not> ((97 \<le> n \<and> n \<le> 122) \<or> (65 \<le> n \<and> n \<le> 90) \<or> isspace c))"

fun re_sub :: "(char \<Rightarrow> bool) \<Rightarrow> string \<Rightarrow> string \<Rightarrow> string" where
  "re_sub cls repl [] = []"
| "re_sub cls repl (c # cs) =
     (if cls c then repl @ re_sub cls repl cs else c # re_sub cls repl cs)"

definition clean_text :: "string \<Rightarrow> string list" where
  "clean_text text = split (lower (re_sub non_alpha_space [] text))"

text \<open>
  The running totals are a \<open>defaultdict(int)\<close>: an association list in insertion order.
  \<open>word_frequencies[word] += 1\<close> reads 0 for a missing key.
\<close>

type_synonym frequencies = "(string \<times> int) list"

definition increment :: "frequencies \<Rightarrow> string \<Rightarrow> frequencies" where
  "increment word_frequencies word =
     AList.update word
       ((case map_of word_frequencies word of None \<Rightarrow> 0 | Some n \<Rightarrow> n) + 1)
       word_frequencies"

definition count_chunk :: "frequencies \<Rightarrow> string \<Rightarrow> frequencies" where
  "count_chunk word_frequencies chunk = foldl increment word_frequencies (clean_text chunk)"

fun aggregate_batches :: "frequencies \<Rightarrow> string list list \<Rightarrow> exn + frequencies" where
  "aggregate_batches word_frequencies [] = Inr word_frequencies"
| "aggregate_batches word_frequencies (chunk_batch # batches) =
     (case merge_split_words chunk_batch of
        Inl e \<Rightarrow> Inl e
      | Inr merged_chunks \<Rightarrow>
          aggregate_batches (foldl count_chunk word_frequencies merged_chunks) batches)"

section \<open>The retrying executor\<close>

text \<open>
  \<open>execute_with_retry(func, retries, delay)\<close>. The operation may answer differently each
  time it is called, so \<open>func attempt\<close> is what its call number \<open>attempt\<close> (from 0) does:
  return a value or raise. A run records what the executor returned or raised, how many
  times it called the operation, and each \<open>time.sleep\<close> it made. \<open>retries\<close> is a natural
  number (a negative one makes \<open>range(retries)\<close> empty, as 0 does). Log lines are not
  modelled.
\<close>

fun contains :: "string \<Rightarrow> string \<Rightarrow> bool" where
  "contains sub [] = (sub = [])"
| "contains sub (c # cs) = (take (length sub) (c # cs) = sub \<or> contains sub cs)"

fun is_locked :: "exn \<Rightarrow> bool" where
  "is_locked (OperationalError msg) = contains ''locked'' msg"
| "is_locked _ = False"

definition digit :: "nat \<Rightarrow> char" where
  "digit d = ''0123456789'' ! d"

fun str_nat :: "nat \<Rightarrow> string" where
  "str_nat n = (if n < 10 then [digit n] else str_nat (n div 10) @ [digit (n mod 10)])"

declare str_nat.simps [simp del]

record ('a, 'd) run =
  outcome :: "exn + 'a"
  calls :: nat
  slept :: "'d list"

fun attempts :: "(nat \<Rightarrow> exn + 'a) \<Rightarrow> nat \<Rightarrow> 'd \<Rightarrow> nat \<Rightarrow> nat \<Rightarrow> 'd list \<Rightarrow> ('a, 'd) run" where
  "attempts func retries delay attempt 0 sleeps =
     \<lparr>outcome = Inl (Exception (''Failed to execute after '' @ str_nat retries @ '' retries'')),
      calls = attempt, slept = sleeps\<rparr>"
| "attempts func retries delay attempt (Suc remaining) sleeps =
     (case func attempt of
        Inr v \<Rightarrow> \<lparr>outcome = Inr v, calls = Suc attempt, slept = sleeps\<rparr>
      | Inl e \<Rightarrow>
          if is_locked e
          then attempts func retries delay (Suc attempt) remaining (sleeps @ [delay])
          else \<lparr>outcome = Inl e, calls = Suc attempt, slept = sleeps\<rparr>)"

definition execute_with_retry :: "(nat \<Rightarrow> exn + 'a) \<Rightarrow> nat \<Rightarrow> 'd \<Rightarrow> ('a, 'd) run" where
  "execute_with_retry func retries delay = attempts func retries delay 0 retries []"

section \<open>The store\<close>

text \<open>
  The SQLite file: each of the two tables is absent (\<open>None\<close>) or holds its rows.
  \<open>pdf_chunks\<close> keeps its rows in \<open>id\<close> order; rows are never deleted, so
  \<open>AUTOINCREMENT\<close> gives a new row the number of rows plus one. \<open>word_frequencies\<close> has
  the word as its primary key. Counts are taken within the range of an SQLite
  \<open>INTEGER\<close>, \<open>int64\<close> below.
\<close>

record chunk_row =
  row_id :: nat
  file_name :: string
  chunk_index :: nat
  chunk_text :: string

record database =
  pdf_chunks :: "chunk_row list option"
  word_frequencies_table :: "(string \<rightharpoonup> int) option"

definition int64 :: "int \<Rightarrow> bool" where
  "int64 i = (- (2 ^ 63) \<le> i \<and> i < 2 ^ 63)"

definition setup_database :: "bool \<Rightarrow> database \<Rightarrow> database" where
  "setup_database reset_db db =
     (let db1 = (if reset_db then db\<lparr>pdf_chunks := None, word_frequencies_table := None\<rparr> else db);
          db2 = (case pdf_chunks db1 of None \<Rightarrow> db1\<lparr>pdf_chunks := Some []\<rparr> | Some _ \<Rightarrow> db1)
      in case word_frequencies_table db2 of
           None \<Rightarrow> db2\<lparr>word_frequencies_table := Some Map.empty\<rparr>
         | Some _ \<Rightarrow> db2)"

text \<open>\<open>os.path.basename\<close>, with \<open>/\<close> as the separator.\<close>

definition basename :: "string \<Rightarrow> string" where
  "basename p = rev (takeWhile (\<lambda>c. c \<noteq> CHR ''/'') (rev p))"

definition insert_chunk :: "string \<Rightarrow> nat \<Rightarrow> string \<Rightarrow> chunk_row list \<Rightarrow> chunk_row list" where
  "insert_chunk name index chunk rows =
     rows @ [\<lparr>row_id = Suc (length rows), file_name = name, chunk_index = index, chunk_text = chunk\<rparr>]"

fun insert_chunks :: "string \<Rightarrow> nat \<Rightarrow> string list \<Rightarrow> chunk_row list \<Rightarrow> chunk_row list" where
  "insert_chunks name index [] rows = rows"
| "insert_chunks name index (chunk # chunks) rows =
     insert_chunks name (Suc index) chunks (insert_chunk (basename name) index chunk rows)"

text \<open>
  \<open>_store\<close>, one transaction: nothing is committed when it raises. \<open>locked\<close> says
  whether this call finds the file locked by another writer.
\<close>

definition store :: "string \<Rightarrow> string list \<Rightarrow> database \<Rightarrow> bool \<Rightarrow> exn + database" where
  "store name chunks db locked =
     (if chunks = [] then Inr db
      else (case pdf_chunks db of
              None \<Rightarrow> Inl (OperationalError ''no such table: pdf_chunks'')
            | Some rows \<Rightarrow>
                if locked then Inl (OperationalError ''database is locked'')
                else Inr (db\<lparr>pdf_chunks := Some (insert_chunks name 0 chunks rows)\<rparr>)))"

definition store_chunks_in_db :: "(nat \<Rightarrow> bool) \<Rightarrow> string \<Rightarrow> string list \<Rightarrow> database \<Rightarrow> exn + database" where
  "store_chunks_in_db busy name chunks db =
     outcome (execute_with_retry (\<lambda>attempt. store name chunks db (busy attempt)) 999 (10 :: nat))"

section \<open>Ingestion\<close>

text \<open>
  The extractor (PyMuPDF) and the splitter (LangChain) are collaborators outside the
  repository, taken as parameters: \<open>extract_text_from_pdf\<close> gives the text of a file, the
  empty string when extraction fails; \<open>split_text_into_chunks\<close> gives the chunks or raises.
  \<open>busy name attempt\<close> says whether the store of file \<open>name\<close> finds the database locked
  at its call number \<open>attempt\<close>. Every exception of a task is caught and logged, and the
  task leaves the database as it found it.
\<close>

definition extract_split_and_store_pdf ::
  "(string \<Rightarrow> string) \<Rightarrow> (string \<Rightarrow> int \<Rightarrow> exn + string list) \<Rightarrow> (string \<Rightarrow> nat \<Rightarrow> bool) \<Rightarrow>
   string \<Rightarrow> int \<Rightarrow> database \<Rightarrow> database" where
  "extract_split_and_store_pdf extract_text_from_pdf split_text_into_chunks busy pdf_file chunk_size db =
     (let text = extract_text_from_pdf pdf_file
      in if text = [] then db
         else (case split_text_into_chunks text chunk_size of
                 Inl e \<Rightarrow> db
               | Inr chunks \<Rightarrow>
                   if chunks = [] then db
                   else (case store_chunks_in_db (busy pdf_file) pdf_file chunks db of
                           Inl e \<Rightarrow> db
                         | Inr db' \<Rightarrow> db')))"

text \<open>
  The tasks of the thread pool each commit at most one transaction; \<open>pdf_files\<close> lists the
  files in the order in which their tasks reach the database.
\<close>

definition process_files_in_parallel ::
  "(string \<Rightarrow> string) \<Rightarrow> (string \<Rightarrow> int \<Rightarrow> exn + string list) \<Rightarrow> (string \<Rightarrow> nat \<Rightarrow> bool) \<Rightarrow>
   string list \<Rightarrow> bool \<Rightarrow> int \<Rightarrow> database \<Rightarrow> database" where
  "process_files_in_parallel extract_text_from_pdf split_text_into_chunks busy pdf_files reset_db chunk_size db =
     foldl (\<lambda>db pdf_file.
              extract_split_and_store_pdf extract_text_from_pdf split_text_into_chunks busy
                pdf_file chunk_size db)
       (setup_database reset_db db) pdf_files"

section \<open>Aggregation\<close>

text \<open>
  \<open>retrieve_chunks_in_batches\<close>: one \<open>SELECT ... ORDER BY id LIMIT batch_size OFFSET offset\<close>
  for each \<open>offset\<close> of \<open>range(0, total_chunks, batch_size)\<close>. A step of 0 makes \<open>range\<close> raise
  \<open>ValueError\<close>; a negative step makes it empty.
\<close>

definition retrieve_chunks_in_batches :: "database \<Rightarrow> int \<Rightarrow> exn + string list list" where
  "retrieve_chunks_in_batches db batch_size =
     (case pdf_chunks db of
        None \<Rightarrow> Inl (OperationalError ''no such table: pdf_chunks'')
      | Some rows \<Rightarrow>
          let total_chunks = length rows; step = nat batch_size
          in if batch_size = 0 then Inl ValueError
             else if batch_size < 0 then Inr []
             else Inr (map (\<lambda>k. map chunk_text (take step (drop (k * step) rows)))
                        [0 ..< (total_chunks + step - 1) div step]))"

text \<open>
  \<open>INSERT ... ON CONFLICT(word) DO UPDATE SET frequency = frequency + ?\<close>, then the loop
  over the items of the running totals.
\<close>

definition upsert :: "(string \<rightharpoonup> int) \<Rightarrow> string \<times> int \<Rightarrow> (string \<rightharpoonup> int)" where
  "upsert table item =
     (case item of (word, freq) \<Rightarrow>
        (case table word of
           None \<Rightarrow> table(word \<mapsto> freq)
         | Some frequency \<Rightarrow> table(word \<mapsto> frequency + freq)))"

definition store_word_frequencies :: "frequencies \<Rightarrow> database \<Rightarrow> exn + database" where
  "store_word_frequencies word_frequencies db =
     (if word_frequencies = [] then Inr db
      else (case word_frequencies_table db of
              None \<Rightarrow> Inl (OperationalError ''no such table: word_frequencies'')
            | Some table \<Rightarrow>
                Inr (db\<lparr>word_frequencies_table := Some (foldl upsert table word_frequencies)\<rparr>)))"

definition process_chunks_in_batches :: "database \<Rightarrow> int \<Rightarrow> exn + (frequencies \<times> database)" where
  "process_chunks_in_batches db batch_size =
     (case retrieve_chunks_in_batches db batch_size of
        Inl e \<Rightarrow> Inl e
      | Inr batches \<Rightarrow>
          (case aggregate_batches [] batches of
             Inl e \<Rightarrow> Inl e
           | Inr word_frequencies \<Rightarrow>
               (case store_word_frequencies word_frequencies db of
                  Inl e \<Rightarrow> Inl e
                | Inr db' \<Rightarrow> Inr (word_frequencies, db'))))"

text \<open>\<open>update_database\<close>: reset, ingest, then aggregate with the default batch size.\<close>

definition update_database ::
  "(string \<Rightarrow> string) \<Rightarrow> (string \<Rightarrow> int \<Rightarrow> exn + string list) \<Rightarrow> (string \<Rightarrow> nat \<Rightarrow> bool) \<Rightarrow>
   string list \<Rightarrow> bool \<Rightarrow> int \<Rightarrow> database \<Rightarrow> exn + (frequencies \<times> database)" where
  "update_database extract_text_from_pdf split_text_into_chunks busy pdf_files reset_db chunk_size db =
     process_chunks_in_batches
       (process_files_in_parallel extract_text_from_pdf split_text_into_chunks busy pdf_files
          reset_db chunk_size (setup_database reset_db db))
       1000"

section \<open>Notions of the specification\<close>

text \<open>
  The specification's own reading of tokenisation, to compare \<open>clean_text\<close> with: keep
  the characters a-z, A-Z and whitespace, delete every other one, lowercase, split on
  whitespace. It is written without \<open>re_sub\<close>, \<open>lower\<close> and \<open>split\<close>, the steps of the code.
\<close>

definition ascii_letter :: "char \<Rightarrow> bool" where
  "ascii_letter c \<longleftrightarrow>
     c \<in> set ''abcdefghijklmnopqrstuvwxyz'' \<or> c \<in> set ''ABCDEFGHIJKLMNOPQRSTUVWXYZ''"

text \<open>
  Lowercasing, read off the two alphabets: a capital letter becomes the small letter at
  the same place, every other character stays.
\<close>

definition spec_lower :: "char \<Rightarrow> char" where
  "spec_lower c =
     (case map_of (zip ''ABCDEFGHIJKLMNOPQRSTUVWXYZ'' ''abcdefghijklmnopqrstuvwxyz'') c of
        None \<Rightarrow> c
      | Some l \<Rightarrow> l)"

text \<open>
  Splitting on whitespace: every whitespace character ends a piece and starts the next
  one, and the words are the pieces that are not empty.
\<close>

fun pieces :: "string \<Rightarrow> string list" where
  "pieces [] = [[]]"
| "pieces (c # cs) =
     (if isspace c then [] # pieces cs
      else (case pieces cs of [] \<Rightarrow> [[c]] | p # ps \<Rightarrow> (c # p) # ps))"

definition spec_words :: "string \<Rightarrow> string list" where
  "spec_words s = filter (\<lambda>w. w \<noteq> []) (pieces s)"

definition spec_tokenize :: "string \<Rightarrow> string list" where
  "spec_tokenize text =
     spec_words (map spec_lower (filter (\<lambda>c. ascii_letter c \<or> isspace c) text))"

text \<open>An attempt fails with the locked condition, the one that the executor retries.\<close>

definition fails_locked :: "exn + 'a \<Rightarrow> bool" where
  "fails_locked r = (case r of Inl e \<Rightarrow> is_locked e | Inr v \<Rightarrow> False)"

text \<open>
  The rows that appending the chunks of a document to a table of \<open>n\<close> rows is to add:
  one row for each chunk, its ordinal the position of the chunk in the list. And the
  ordinals that the store holds for a document, in the order of the rows.
\<close>

definition ordinal_rows :: "string \<Rightarrow> string list \<Rightarrow> nat \<Rightarrow> chunk_row list" where
  "ordinal_rows document chunks n =
     map (\<lambda>i. \<lparr>row_id = Suc (n + i), file_name = document, chunk_index = i, chunk_text = chunks ! i\<rparr>)
       [0 ..< length chunks]"

definition document_ordinals :: "string \<Rightarrow> database \<Rightarrow> nat list" where
  "document_ordinals document db =
     (case pdf_chunks db of
        None \<Rightarrow> []
      | Some rows \<Rightarrow> map chunk_index (filter (\<lambda>row. file_name row = document) rows))"

text \<open>
  A normalized word: not empty, lowercase letters a-z only. And running totals that are a
  map (no key twice) from normalized words to counts of at least 1.
\<close>

definition normalized :: "string \<Rightarrow> bool" where
  "normalized word \<longleftrightarrow> word \<noteq> [] \<and> set word \<subseteq> set ''abcdefghijklmnopqrstuvwxyz''"

definition counted :: "frequencies \<Rightarrow> bool" where
  "counted word_frequencies \<longleftrightarrow>
     distinct (map fst word_frequencies)
     \<and> (\<forall>(word, count) \<in> set word_frequencies. normalized word \<and> 1 \<le> count)"

section \<open>Characters\<close>

lemma char_range_iff:
  assumes "hi < 256"
  shows "c \<in> set (map char_of [lo ..< Suc hi]) \<longleftrightarrow> lo \<le> code_point c \<and> code_point c \<le> hi"
proof
  assume "c \<in> set (map char_of [lo ..< Suc hi])"
  then obtain n where n: "lo \<le> n" "n \<le> hi" "c = char_of n" by auto
  with assms have "code_point c = n" by (simp add: code_point_def)
  with n show "lo \<le> code_point c \<and> code_point c \<le> hi" by simp
next
  assume "lo \<le> code_point c \<and> code_point c \<le> hi"
  moreover have "c = char_of (code_point c)" by (simp add: code_point_def)
  ultimately show "c \<in> set (map char_of [lo ..< Suc hi])"
    by (metis atLeastLessThan_iff imageI le_imp_less_Suc list.set_map set_upt)
qed

lemma lower_case_letters: "map char_of [97 ..< Suc 122] = ''abcdefghijklmnopqrstuvwxyz''"
  by code_simp

lemma upper_case_letters: "map char_of [65 ..< Suc 90] = ''ABCDEFGHIJKLMNOPQRSTUVWXYZ''"
  by code_simp

lemma lower_case_letter_iff:
  "c \<in> set ''abcdefghijklmnopqrstuvwxyz'' \<longleftrightarrow> 97 \<le> code_point c \<and> code_point c \<le> 122"
  using char_range_iff [of 122 c 97] by (simp only: lower_case_letters)

lemma upper_case_letter_iff:
  "c \<in> set ''ABCDEFGHIJKLMNOPQRSTUVWXYZ'' \<longleftrightarrow> 65 \<le> code_point c \<and> code_point c \<le> 90"
  using char_range_iff [of 90 c 65] by (simp only: upper_case_letters)

lemma code_point_lower_char:
  "65 \<le> code_point c \<Longrightarrow> code_point c \<le> 90 \<Longrightarrow> code_point (lower_char c) = code_point c + 32"
  by (simp add: lower_char_def code_point_def)

lemma lower_char_fixed:
  "isspace c \<or> (97 \<le> code_point c \<and> code_point c \<le> 122) \<Longrightarrow> lower_char c = c"
  by (auto simp: lower_char_def isspace_def Let_def)

section \<open>Resetting the store\<close>

text \<open>
  C7. \<open>setup_database\<close> with \<open>reset_db\<close> true drops and recreates both tables: whatever
  the store held, both tables then exist and are empty. With \<open>reset_db\<close> false a table
  that is absent is created empty, and a table that exists keeps its rows.
\<close>

theorem setup_database_tables:
  "setup_database True db = \<lparr>pdf_chunks = Some [], word_frequencies_table = Some Map.empty\<rparr>
   \<and> pdf_chunks (setup_database False db)
       = Some (case pdf_chunks db of None \<Rightarrow> [] | Some rows \<Rightarrow> rows)
   \<and> word_frequencies_table (setup_database False db)
       = Some (case word_frequencies_table db of None \<Rightarrow> Map.empty | Some table \<Rightarrow> table)"
  by (cases db) (simp add: setup_database_def split: option.splits)

section \<open>Boundary merge\<close>

lemma split_scan_no_space:
  "\<forall>c\<in>set s. \<not> isspace c \<Longrightarrow> split_scan cur s = (if cur @ s = [] then [] else [cur @ s])"
  by (induction s arbitrary: cur) auto

lemma split_scan_at_space:
  "isspace c \<Longrightarrow> split_scan cur (xs @ c # ys) = split_scan cur xs @ split_scan [] ys"
  by (induction xs arbitrary: cur) auto

lemma split_scan_nonempty:
  "s \<noteq> [] \<Longrightarrow> \<not> isspace (last s) \<Longrightarrow> split_scan cur s \<noteq> []"
  by (induction s arbitrary: cur) (auto split: if_splits)

lemma isspace_space: "isspace CHR '' ''"
  by (simp add: isspace_def code_point_def)

lemma split_last_token:
  assumes "f \<noteq> []" "\<forall>c\<in>set f. \<not> isspace c"
  shows "split (t @ CHR '' '' # f) = split t @ [f]"
  using assms by (simp add: split_def split_scan_at_space [OF isspace_space] split_scan_no_space)

lemma takeWhile_upto_sep:
  "sep \<notin> set xs \<Longrightarrow> takeWhile (\<lambda>c. c \<noteq> sep) (xs @ sep # ys) = xs"
  by (induction xs) auto

lemma dropWhile_upto_sep:
  "sep \<notin> set xs \<Longrightarrow> dropWhile (\<lambda>c. c \<noteq> sep) (xs @ sep # ys) = sep # ys"
  by (induction xs) auto

lemma rsplit1_last_sep:
  assumes "sep \<notin> set f"
  shows "rsplit1 (t @ sep # f) sep = [t, f]"
  using assms takeWhile_upto_sep [of sep "rev f" "rev t"] dropWhile_upto_sep [of sep "rev f" "rev t"]
  by (simp add: rsplit1_def)

lemma merge_step_as_is:
  "chunk \<noteq> [] \<Longrightarrow> isspace (last chunk) \<or> isalpha (last chunk) \<Longrightarrow>
   merge_step [] chunk = Inr (chunk, [])"
  by (auto simp: merge_step_def)

lemma merge_step_cut:
  assumes "f \<noteq> []" "\<forall>c\<in>set f. \<not> isspace c" "\<not> isalpha (last f)"
  shows "merge_step [] (t @ CHR '' '' # f) = Inr (t, f)"
proof -
  have sp: "CHR '' '' \<notin> set f" using assms(2) isspace_space by auto
  have l: "\<not> isspace (last f)" using assms(1,2) by simp
  show ?thesis
    using assms(1,3) l
    by (simp add: merge_step_def rsplit1_last_sep [OF sp] split_last_token [OF assms(1,2)])
qed

lemma merge_loop_append:
  "merge_loop merged buffer (xs @ ys) =
     (case merge_loop merged buffer xs of
        Inl e \<Rightarrow> Inl e
      | Inr (merged', buffer') \<Rightarrow> merge_loop merged' buffer' ys)"
  by (induction xs arbitrary: merged buffer) (auto split: sum.splits)

lemma merge_step_nonempty:
  assumes "c \<noteq> []"
  shows "\<exists>r. merge_step [] c = Inr r"
proof (cases "\<not> isspace (last c) \<and> \<not> isalpha (last c)")
  case True
  then have "split c \<noteq> []"
    using assms by (simp add: split_def split_scan_nonempty)
  with True assms show ?thesis by (simp add: merge_step_def)
next
  case False
  with assms show ?thesis by (auto simp: merge_step_def)
qed

lemma merge_step_buffer:
  "buffer \<noteq> [] \<Longrightarrow> merge_step buffer chunk = merge_step [] (buffer @ chunk)"
  by (simp add: merge_step_def)

lemma merge_step_total:
  assumes "chunk \<noteq> [] \<or> buffer \<noteq> []"
  shows "\<exists>r. merge_step buffer chunk = Inr r"
proof (cases "buffer = []")
  case True
  with assms show ?thesis using merge_step_nonempty [of chunk] by simp
next
  case False
  then show ?thesis using merge_step_nonempty [of "buffer @ chunk"] by (simp add: merge_step_buffer)
qed

lemma merge_loop_total:
  "\<forall>chunk\<in>set chunks. chunk \<noteq> [] \<Longrightarrow> \<exists>r. merge_loop merged buffer chunks = Inr r"
proof (induction chunks arbitrary: merged buffer)
  case Nil
  then show ?case by simp
next
  case (Cons chunk chunks)
  then obtain r where "merge_step buffer chunk = Inr r"
    using merge_step_total [of chunk buffer] by auto
  with Cons show ?case by (cases r) auto
qed

text \<open>
  C1, as the code has it. Both chunks of the batch \<open>["hello wor", "ld this is"]\<close> end in an
  alphabetic character, so the boundary merge emits them unchanged and the counts are
  those of the five tokens hello, wor, ld, this, is: "this" and "is" are counted once,
  "wor" and "ld" are keys, and "world" is not.
\<close>

theorem aggregate_alphabetic_boundary:
  "merge_split_words [''hello wor'', ''ld this is''] = Inr [''hello wor'', ''ld this is'']
   \<and> aggregate_batches [] [[''hello wor'', ''ld this is'']]
       = Inr [(''hello'', 1), (''wor'', 1), (''ld'', 1), (''this'', 1), (''is'', 1)]"
  by code_simp

text \<open>
  C1, as the claim states it, fails on that batch: the map does not have "world" with
  count 1 and "wor" and "ld" absent.
\<close>

theorem aggregate_world_counterexample:
  "\<not> (case aggregate_batches [] [[''hello wor'', ''ld this is'']] of
        Inl e \<Rightarrow> False
      | Inr counts \<Rightarrow>
          map_of counts ''world'' = Some 1 \<and> map_of counts ''this'' = Some 1
          \<and> map_of counts ''is'' = Some 1
          \<and> map_of counts ''wor'' = None \<and> map_of counts ''ld'' = None)"
  by code_simp

text \<open>
  C2, as the code has it. For a non-empty \<open>x\<close> whose last character is whitespace or
  alphabetic, the merge of the batch \<open>[x]\<close> is \<open>[x]\<close>. For an \<open>x\<close> whose last character is
  neither and whose last whitespace character is a space, that is \<open>x = t + " " + f\<close> with
  \<open>f\<close> free of whitespace, the merge is \<open>[t, f]\<close>: \<open>f\<close> is the trailing token of \<open>x\<close>, and
  \<open>t\<close> is \<open>x\<close> without that token and without the space before it, so \<open>x\<close> is \<open>t\<close> and \<open>f\<close>
  joined by one space.
\<close>

theorem merge_split_words_single:
  "(x \<noteq> [] \<and> (isspace (last x) \<or> isalpha (last x)) \<longrightarrow> merge_split_words [x] = Inr [x])
   \<and> (f \<noteq> [] \<and> (\<forall>c\<in>set f. \<not> isspace c) \<and> \<not> isalpha (last f)
        \<longrightarrow> merge_split_words [t @ '' '' @ f] = Inr [t, f] \<and> last (split (t @ '' '' @ f)) = f)"
  by (auto simp: merge_split_words_def merge_step_as_is merge_step_cut split_last_token)

theorem merge_split_words_single_witness:
  "merge_split_words [''the cat sat''] = Inr [''the cat sat'']
   \<and> merge_split_words [''hello wor1''] = Inr [''hello'', ''wor1'']
   \<and> last (split ''hello wor1'') = ''wor1''"
  using merge_split_words_single [of "''the cat sat''" "''wor1''" "''hello''"]
  by (simp add: isspace_def isalpha_def code_point_def)

text \<open>
  C2, as the claim states it, fails at \<open>x = "hello wor1"\<close>: the last character is neither
  whitespace nor alphabetic, the merge returns \<open>["hello", "wor1"]\<close>, and the fragment
  appended to the truncated element is \<open>"hellowor1"\<close>, not \<open>x\<close>.
\<close>

theorem merge_split_words_single_counterexample:
  "\<not> isspace (last ''hello wor1'') \<and> \<not> isalpha (last ''hello wor1'')
   \<and> merge_split_words [''hello wor1''] = Inr [''hello'', ''wor1'']
   \<and> ''hello'' @ ''wor1'' \<noteq> ''hello wor1''"
  by code_simp

text \<open>
  C9. The boundary merge raises \<open>IndexError\<close> on a batch that has an empty chunk text at
  a position that the chunks before it reach with an empty buffer; and on a batch whose
  chunk texts are all non-empty it returns a list, so that failure cannot occur there.
\<close>

theorem merge_split_words_empty_chunk:
  "(merge_loop [] [] pre = Inr (merged, []) \<longrightarrow>
      merge_split_words (pre @ [] # post) = Inl IndexError)
   \<and> ((\<forall>chunk\<in>set chunks. chunk \<noteq> []) \<longrightarrow>
        (\<exists>merged_chunks. merge_split_words chunks = Inr merged_chunks))"
proof (intro conjI impI)
  assume "merge_loop [] [] pre = Inr (merged, [])"
  then show "merge_split_words (pre @ [] # post) = Inl IndexError"
    by (simp add: merge_split_words_def merge_loop_append merge_step_def)
next
  assume "\<forall>chunk\<in>set chunks. chunk \<noteq> []"
  then obtain r where "merge_loop [] [] chunks = Inr r"
    using merge_loop_total by blast
  then show "\<exists>merged_chunks. merge_split_words chunks = Inr merged_chunks"
    by (cases r) (simp add: merge_split_words_def)
qed

theorem merge_split_words_empty_chunk_witness:
  "merge_loop [] [] [''ab''] = Inr ([''ab''], [])
   \<and> merge_split_words [''ab'', [], ''cd''] = Inl IndexError
   \<and> (\<exists>merged_chunks. merge_split_words [''ab'', ''cd''] = Inr merged_chunks)"
proof -
  have pre: "merge_loop [] [] [''ab''] = Inr ([''ab''], [])"
    by code_simp
  show ?thesis
    using pre merge_split_words_empty_chunk [of "[''ab'']" "[''ab'']" "[''cd'']" "[''ab'', ''cd'']"]
    by simp
qed

section \<open>The retrying executor: retries, propagation, exhaustion\<close>

lemma attempts_locked_prefix:
  "\<forall>i<k. fails_locked (func (attempt + i)) \<Longrightarrow> k \<le> n \<Longrightarrow>
   attempts func retries delay attempt n sleeps
     = attempts func retries delay (attempt + k) (n - k) (sleeps @ replicate k delay)"
proof (induction k arbitrary: attempt n sleeps)
  case 0
  then show ?case by simp
next
  case (Suc k)
  from Suc.prems(2) obtain m where n: "n = Suc m" and m: "k \<le> m"
    by (cases n) auto
  from Suc.prems(1) have first: "fails_locked (func attempt)"
    by (metis add.right_neutral zero_less_Suc)
  from Suc.prems(1) have rest: "\<forall>i<k. fails_locked (func (Suc attempt + i))"
    by auto
  from first obtain e where e: "func attempt = Inl e" "is_locked e"
    by (auto simp: fails_locked_def split: sum.splits)
  have "attempts func retries delay attempt n sleeps
          = attempts func retries delay (Suc attempt) m (sleeps @ [delay])"
    using e n by simp
  also have "\<dots> = attempts func retries delay (Suc attempt + k) (m - k)
                     ((sleeps @ [delay]) @ replicate k delay)"
    by (rule Suc.IH [OF rest m])
  finally show ?case
    using n by (simp add: replicate_append_same)
qed

lemma execute_with_retry_prefix:
  assumes "\<forall>i<k. fails_locked (func i)" "k \<le> retries"
  shows "execute_with_retry func retries delay
           = attempts func retries delay k (retries - k) (replicate k delay)"
  unfolding execute_with_retry_def
  using attempts_locked_prefix [of k func 0 retries retries delay "[]"] assms by simp

lemma execute_with_retry_returns:
  assumes "\<forall>i<k. fails_locked (func i)" "k < retries" "func k = Inr v"
  shows "execute_with_retry func retries delay
           = \<lparr>outcome = Inr v, calls = Suc k, slept = replicate k delay\<rparr>"
proof -
  obtain m where m: "retries - k = Suc m"
    using assms(2) by (cases "retries - k") auto
  have "execute_with_retry func retries delay
          = attempts func retries delay k (Suc m) (replicate k delay)"
    using execute_with_retry_prefix [OF assms(1), of retries delay] assms(2) m by simp
  then show ?thesis
    using assms(3) by simp
qed

lemma execute_with_retry_raises:
  assumes "\<forall>i<k. fails_locked (func i)" "k < retries" "func k = Inl e" "\<not> is_locked e"
  shows "execute_with_retry func retries delay
           = \<lparr>outcome = Inl e, calls = Suc k, slept = replicate k delay\<rparr>"
proof -
  obtain m where m: "retries - k = Suc m"
    using assms(2) by (cases "retries - k") auto
  have "execute_with_retry func retries delay
          = attempts func retries delay k (Suc m) (replicate k delay)"
    using execute_with_retry_prefix [OF assms(1), of retries delay] assms(2) m by simp
  then show ?thesis
    using assms(3,4) by simp
qed

lemma execute_with_retry_exhausted:
  assumes "\<forall>i<retries. fails_locked (func i)"
  shows "execute_with_retry func retries delay
           = \<lparr>outcome = Inl (Exception (''Failed to execute after '' @ str_nat retries @ '' retries'')),
              calls = retries, slept = replicate retries delay\<rparr>"
  using execute_with_retry_prefix [OF assms, of retries delay] by simp

lemma str_nat_digit: "n < 10 \<Longrightarrow> str_nat n = [digit n]"
  by (simp add: str_nat.simps)

text \<open>
  C3. When the first \<open>k\<close> calls of the operation fail with the locked condition and
  \<open>k\<close> is below the cap: if call \<open>k\<close> returns, the executor returns its value after
  \<open>k + 1\<close> calls and \<open>k\<close> sleeps of \<open>delay\<close> each; if call \<open>k\<close> raises anything that is not
  the locked condition, the executor raises that same exception after \<open>k + 1\<close> calls,
  with no call and no sleep after it. When all \<open>retries\<close> calls fail with the locked
  condition, the executor raises \<open>Exception\<close> with its own message after \<open>retries\<close> calls,
  and what it raises is not an \<open>OperationalError\<close>.
\<close>

theorem execute_with_retry_policy:
  "((\<forall>i<k. fails_locked (func i)) \<and> k < retries \<and> func k = Inr v \<longrightarrow>
      execute_with_retry func retries delay
        = \<lparr>outcome = Inr v, calls = Suc k, slept = replicate k delay\<rparr>)
   \<and> ((\<forall>i<k. fails_locked (func i)) \<and> k < retries \<and> func k = Inl e \<and> \<not> is_locked e \<longrightarrow>
      execute_with_retry func retries delay
        = \<lparr>outcome = Inl e, calls = Suc k, slept = replicate k delay\<rparr>)
   \<and> ((\<forall>i<retries. fails_locked (func i)) \<longrightarrow>
      execute_with_retry func retries delay
        = \<lparr>outcome = Inl (Exception (''Failed to execute after '' @ str_nat retries @ '' retries'')),
           calls = retries, slept = replicate retries delay\<rparr>
      \<and> (\<forall>msg. outcome (execute_with_retry func retries delay) \<noteq> Inl (OperationalError msg)))"
  using execute_with_retry_returns [of k func retries v delay]
    execute_with_retry_raises [of k func retries e delay]
    execute_with_retry_exhausted [of retries func delay]
  by simp

theorem execute_with_retry_policy_witness:
  "execute_with_retry
     (\<lambda>attempt. if attempt < 2 then Inl (OperationalError ''database is locked'') else Inr (7 :: nat))
     5 (10 :: nat)
     = \<lparr>outcome = Inr 7, calls = 3, slept = [10, 10]\<rparr>
   \<and> execute_with_retry
       (\<lambda>attempt. if attempt < 2 then Inl (OperationalError ''database is locked'')
                   else (Inl (OperationalError ''no such table: pdf_chunks'') :: exn + nat))
       5 (10 :: nat)
       = \<lparr>outcome = Inl (OperationalError ''no such table: pdf_chunks''), calls = 3, slept = [10, 10]\<rparr>
   \<and> execute_with_retry (\<lambda>attempt. Inl (OperationalError ''database is locked'') :: exn + nat) 3 (10 :: nat)
       = \<lparr>outcome = Inl (Exception ''Failed to execute after 3 retries''), calls = 3,
          slept = [10, 10, 10]\<rparr>"
proof -
  have two: "replicate 2 (10 :: nat) = [10, 10]"
    by code_simp
  have three: "replicate 3 (10 :: nat) = [10, 10, 10]"
    by code_simp
  have msg: "str_nat 3 = ''3''"
    by (simp add: str_nat_digit digit_def)
  show ?thesis
    using
      execute_with_retry_policy
        [of 2 "\<lambda>attempt. if attempt < 2 then Inl (OperationalError ''database is locked'') else Inr (7 :: nat)"
          5 7 "10 :: nat" IndexError]
      execute_with_retry_policy
        [of 2 "\<lambda>attempt. if attempt < 2 then Inl (OperationalError ''database is locked'')
                          else (Inl (OperationalError ''no such table: pdf_chunks'') :: exn + nat)"
          5 0 "10 :: nat" "OperationalError ''no such table: pdf_chunks''"]
      execute_with_retry_policy
        [of 0 "\<lambda>attempt. Inl (OperationalError ''database is locked'') :: exn + nat"
          3 0 "10 :: nat" IndexError]
    by (simp add: fails_locked_def two three msg)
qed

section \<open>Appending chunks\<close>

lemma insert_chunks_rows:
  "insert_chunks name index chunks rows
     = rows @ map (\<lambda>j. \<lparr>row_id = Suc (length rows + j), file_name = basename name,
                          chunk_index = index + j, chunk_text = chunks ! j\<rparr>)
                [0 ..< length chunks]"
proof (induction chunks arbitrary: index rows)
  case Nil
  then show ?case by simp
next
  case (Cons chunk chunks)
  have upt: "[0 ..< length (chunk # chunks)] = 0 # map Suc [0 ..< length chunks]"
    by (simp add: upt_conv_Cons map_Suc_upt del: upt_Suc)
  show ?case
    unfolding upt by (simp add: Cons.IH insert_chunk_def comp_def)
qed

lemma store_chunks_in_db_stores:
  assumes "pdf_chunks db = Some rows" "chunks \<noteq> []" "\<exists>k<999. \<not> busy k"
  shows "store_chunks_in_db busy name chunks db
           = Inr (db\<lparr>pdf_chunks := Some (insert_chunks name 0 chunks rows)\<rparr>)"
proof -
  define k where "k = (LEAST k. \<not> busy k)"
  from assms(3) obtain k' where k': "k' < 999" "\<not> busy k'" by blast
  have free: "\<not> busy k" unfolding k_def using k'(2) by (rule LeastI)
  have "k \<le> k'" unfolding k_def using k'(2) by (rule Least_le)
  with k'(1) have bound: "k < 999" by simp
  have before: "\<forall>i<k. busy i" unfolding k_def using not_less_Least by blast
  let ?func = "\<lambda>attempt. store name chunks db (busy attempt)"
  have "\<forall>i<k. fails_locked (?func i)"
    using before assms(1,2) by (simp add: store_def fails_locked_def)
  moreover have "?func k = Inr (db\<lparr>pdf_chunks := Some (insert_chunks name 0 chunks rows)\<rparr>)"
    using free assms(1,2) by (simp add: store_def)
  ultimately show ?thesis
    unfolding store_chunks_in_db_def
    using execute_with_retry_returns [of k ?func 999 _ "10::nat"] bound by simp
qed

lemma store_chunks_in_db_nothing:
  "store_chunks_in_db busy name [] db = Inr db"
  by (simp add: store_chunks_in_db_def execute_with_retry_def store_def eval_nat_numeral)

lemma ordinal_rows_document:
  "filter (\<lambda>row. file_name row = document) (ordinal_rows document chunks n)
     = ordinal_rows document chunks n"
  by (simp add: ordinal_rows_def filter_map comp_def)

lemma ordinal_rows_ordinals:
  "map chunk_index (ordinal_rows document chunks n) = [0 ..< length chunks]"
  by (simp add: ordinal_rows_def comp_def map_idI)

text \<open>
  C8. On a store that has the chunk table, and when the database is free at one of the
  999 attempts, \<open>store_chunks_in_db\<close> adds after the rows already there one row for each
  chunk, in the order of the list, whose \<open>chunk_index\<close> is the position of the chunk in
  the list, from 0. So for a document that had no row before, the ordinals in the store
  are \<open>0, 1, ..., length chunks - 1\<close>, without a gap.
\<close>

theorem store_chunks_in_db_ordinals:
  assumes "pdf_chunks db = Some rows" and "\<exists>attempt<999. \<not> busy attempt"
  shows "store_chunks_in_db busy name chunks db
           = Inr (db\<lparr>pdf_chunks := Some (rows @ ordinal_rows (basename name) chunks (length rows))\<rparr>)
         \<and> (document_ordinals (basename name) db = [] \<longrightarrow>
              document_ordinals (basename name)
                (db\<lparr>pdf_chunks := Some (rows @ ordinal_rows (basename name) chunks (length rows))\<rparr>)
                = [0 ..< length chunks])"
proof
  show "store_chunks_in_db busy name chunks db
          = Inr (db\<lparr>pdf_chunks := Some (rows @ ordinal_rows (basename name) chunks (length rows))\<rparr>)"
  proof (cases "chunks = []")
    case True
    then show ?thesis
      using assms(1) by (simp add: store_chunks_in_db_nothing ordinal_rows_def)
  next
    case False
    then show ?thesis
      using store_chunks_in_db_stores [OF assms(1) False assms(2)]
      by (simp add: insert_chunks_rows ordinal_rows_def)
  qed
next
  show "document_ordinals (basename name) db = [] \<longrightarrow>
          document_ordinals (basename name)
            (db\<lparr>pdf_chunks := Some (rows @ ordinal_rows (basename name) chunks (length rows))\<rparr>)
            = [0 ..< length chunks]"
    using assms(1)
    by (simp add: document_ordinals_def ordinal_rows_document ordinal_rows_ordinals)
qed

theorem store_chunks_in_db_ordinals_witness:
  "store_chunks_in_db (\<lambda>attempt. attempt < 2) ''books/a.pdf'' [''the cat'', ''sat'']
     \<lparr>pdf_chunks = Some [], word_frequencies_table = None\<rparr>
     = Inr \<lparr>pdf_chunks =
              Some [\<lparr>row_id = 1, file_name = ''a.pdf'', chunk_index = 0, chunk_text = ''the cat''\<rparr>,
                    \<lparr>row_id = 2, file_name = ''a.pdf'', chunk_index = 1, chunk_text = ''sat''\<rparr>],
            word_frequencies_table = None\<rparr>
   \<and> document_ordinals ''a.pdf''
       \<lparr>pdf_chunks =
          Some [\<lparr>row_id = 1, file_name = ''a.pdf'', chunk_index = 0, chunk_text = ''the cat''\<rparr>,
                \<lparr>row_id = 2, file_name = ''a.pdf'', chunk_index = 1, chunk_text = ''sat''\<rparr>],
        word_frequencies_table = None\<rparr>
       = [0, 1]"
proof -
  have free: "\<exists>attempt<999. \<not> attempt < (2 :: nat)"
    by (rule exI [of _ 2]) simp
  have name: "basename ''books/a.pdf'' = ''a.pdf''"
    by (simp add: basename_def)
  have rows: "ordinal_rows ''a.pdf'' [''the cat'', ''sat''] 0
                = [\<lparr>row_id = 1, file_name = ''a.pdf'', chunk_index = 0, chunk_text = ''the cat''\<rparr>,
                   \<lparr>row_id = 2, file_name = ''a.pdf'', chunk_index = 1, chunk_text = ''sat''\<rparr>]"
    by (simp add: ordinal_rows_def upt_conv_Cons)
  have before: "document_ordinals ''a.pdf'' \<lparr>pdf_chunks = Some [], word_frequencies_table = None\<rparr> = []"
    by (simp add: document_ordinals_def)
  have upt: "[0 ..< length [''the cat'', ''sat'']] = [0, 1]"
    by (simp add: upt_conv_Cons)
  show ?thesis
    using store_chunks_in_db_ordinals
      [of "\<lparr>pdf_chunks = Some [], word_frequencies_table = None\<rparr>" "[]" "\<lambda>attempt. attempt < 2"
        "''books/a.pdf''" "[''the cat'', ''sat'']", OF _ free]
    by (simp add: name rows upt before)
qed

section \<open>Tokenisation\<close>

lemma non_alpha_space_iff: "non_alpha_space c \<longleftrightarrow> \<not> (ascii_letter c \<or> isspace c)"
  unfolding non_alpha_space_def ascii_letter_def lower_case_letter_iff upper_case_letter_iff Let_def
  by blast

lemma re_sub_delete: "re_sub cls [] text = filter (\<lambda>c. \<not> cls c) text"
  by (induction "text") auto

lemma split_scan_pieces:
  "split_scan cur s
     = filter (\<lambda>w. w \<noteq> []) (case pieces s of [] \<Rightarrow> [cur] | p # ps \<Rightarrow> (cur @ p) # ps)"
proof (induction s arbitrary: cur)
  case Nil
  then show ?case by simp
next
  case (Cons c s)
  show ?case
  proof (cases "isspace c")
    case True
    then show ?thesis
      using Cons.IH [of "[]"] by (simp split: list.splits)
  next
    case False
    then show ?thesis
      using Cons.IH [of "cur @ [c]"] by (simp split: list.splits)
  qed
qed

lemma split_spec_words: "split s = spec_words s"
  by (simp add: split_def spec_words_def split_scan_pieces split: list.splits)

lemma lower_char_capitals:
  "map lower_char ''ABCDEFGHIJKLMNOPQRSTUVWXYZ'' = ''abcdefghijklmnopqrstuvwxyz''"
  by code_simp

lemma spec_lower_capitals:
  "map spec_lower ''ABCDEFGHIJKLMNOPQRSTUVWXYZ'' = ''abcdefghijklmnopqrstuvwxyz''"
  by code_simp

lemma spec_lower_other:
  assumes "c \<notin> set ''ABCDEFGHIJKLMNOPQRSTUVWXYZ''"
  shows "spec_lower c = c"
proof -
  have len: "length ''ABCDEFGHIJKLMNOPQRSTUVWXYZ'' = length ''abcdefghijklmnopqrstuvwxyz''"
    by simp
  have "map_of (zip ''ABCDEFGHIJKLMNOPQRSTUVWXYZ'' ''abcdefghijklmnopqrstuvwxyz'') c = None"
    using assms map_of_zip_is_None [OF len, of c] by blast
  then show ?thesis
    by (simp only: spec_lower_def option.case)
qed

lemma lower_char_spec_lower:
  assumes "ascii_letter c \<or> isspace c"
  shows "lower_char c = spec_lower c"
proof (cases "c \<in> set ''ABCDEFGHIJKLMNOPQRSTUVWXYZ''")
  case True
  have "map lower_char ''ABCDEFGHIJKLMNOPQRSTUVWXYZ'' = map spec_lower ''ABCDEFGHIJKLMNOPQRSTUVWXYZ''"
    by (simp only: lower_char_capitals spec_lower_capitals)
  then have "\<forall>x\<in>set ''ABCDEFGHIJKLMNOPQRSTUVWXYZ''. lower_char x = spec_lower x"
    by (simp only: map_eq_conv)
  with True show ?thesis by blast
next
  case False
  with assms have "isspace c \<or> c \<in> set ''abcdefghijklmnopqrstuvwxyz''"
    unfolding ascii_letter_def by blast
  then have "isspace c \<or> (97 \<le> code_point c \<and> code_point c \<le> 122)"
    unfolding lower_case_letter_iff .
  then have "lower_char c = c"
    by (rule lower_char_fixed)
  moreover have "spec_lower c = c"
    using False by (rule spec_lower_other)
  ultimately show ?thesis by (simp only:)
qed

lemma clean_text_spec: "clean_text text = spec_tokenize text"
proof -
  let ?kept = "filter (\<lambda>c. ascii_letter c \<or> isspace c) text"
  have lowered: "map lower_char ?kept = map spec_lower ?kept"
    by (rule map_cong) (simp_all add: lower_char_spec_lower)
  have "clean_text text = split (map lower_char ?kept)"
    by (simp add: clean_text_def re_sub_delete non_alpha_space_iff lower_def)
  also have "\<dots> = spec_words (map lower_char ?kept)"
    by (rule split_spec_words)
  also have "\<dots> = spec_words (map spec_lower ?kept)"
    by (simp only: lowered)
  finally show ?thesis
    by (simp only: spec_tokenize_def)
qed

lemma split_scan_tokens:
  "w \<in> set (split_scan cur s) \<Longrightarrow> w \<noteq> [] \<and> set w \<subseteq> set cur \<union> {c \<in> set s. \<not> isspace c}"
proof (induction s arbitrary: cur)
  case Nil
  then show ?case by (auto split: if_splits)
next
  case (Cons c s)
  show ?case
  proof (cases "isspace c")
    case True
    with Cons.prems have "w = cur \<and> cur \<noteq> [] \<or> w \<in> set (split_scan [] s)"
      by (auto split: if_splits)
    then show ?thesis using Cons.IH [of "[]"] by auto
  next
    case False
    with Cons.prems have "w \<in> set (split_scan (cur @ [c]) s)" by simp
    then show ?thesis using Cons.IH [of "cur @ [c]"] False by auto
  qed
qed

lemma cleaned_code_points:
  assumes "c \<in> set (lower (re_sub non_alpha_space [] text))"
  shows "isspace c \<or> (97 \<le> code_point c \<and> code_point c \<le> 122)"
proof -
  from assms obtain d where d: "\<not> non_alpha_space d" "c = lower_char d"
    by (auto simp: lower_def re_sub_delete)
  from d(1) consider "isspace d" | "97 \<le> code_point d \<and> code_point d \<le> 122"
    | "65 \<le> code_point d \<and> code_point d \<le> 90"
    by (auto simp: non_alpha_space_def Let_def)
  then show ?thesis
  proof cases
    case 1
    then show ?thesis using d(2) by (simp add: lower_char_fixed)
  next
    case 2
    then show ?thesis using d(2) by (simp add: lower_char_fixed)
  next
    case 3
    then show ?thesis using d(2) by (simp add: code_point_lower_char)
  qed
qed

lemma cleaned_chars:
  "c \<in> set (lower (re_sub non_alpha_space [] text)) \<Longrightarrow>
   isspace c \<or> c \<in> set ''abcdefghijklmnopqrstuvwxyz''"
  unfolding lower_case_letter_iff by (rule cleaned_code_points)

lemma clean_text_normalized:
  assumes "w \<in> set (clean_text text)"
  shows "normalized w"
proof -
  from assms have w: "w \<noteq> []" "set w \<subseteq> {c \<in> set (lower (re_sub non_alpha_space [] text)). \<not> isspace c}"
    using split_scan_tokens [of w "[]"] by (auto simp: clean_text_def split_def)
  have "c \<in> set ''abcdefghijklmnopqrstuvwxyz''" if "c \<in> set w" for c
    using that w(2) cleaned_chars [of c "text"] by blast
  with w(1) show ?thesis unfolding normalized_def by blast
qed

text \<open>
  C6. \<open>clean_text\<close> is the tokenisation of the specification: delete every character that
  is not a letter a-z or A-Z and not whitespace, then lowercase, then split on
  whitespace. Every token is a non-empty string of the letters a-z. A deleted character
  is no separator: the tokens of a text are those of the text without it. So "don't"
  gives the one token "dont", and "Don't STOP", a line break, "me now 42" gives dont,
  stop, me, now.
\<close>

theorem clean_text_deletes:
  "clean_text text = spec_tokenize text
   \<and> (\<forall>w\<in>set (clean_text text). w \<noteq> [] \<and> set w \<subseteq> set ''abcdefghijklmnopqrstuvwxyz'')
   \<and> (\<not> (ascii_letter c \<or> isspace c) \<longrightarrow> clean_text (u @ c # v) = clean_text (u @ v))
   \<and> clean_text ''don't'' = [''dont'']
   \<and> clean_text (''Don't  STOP'' @ [CHR 0x0A] @ ''me now 42'') = [''dont'', ''stop'', ''me'', ''now'']"
proof (intro conjI impI ballI)
  show "clean_text text = spec_tokenize text" by (rule clean_text_spec)
  show "w \<noteq> []" if "w \<in> set (clean_text text)" for w
    using clean_text_normalized [OF that] unfolding normalized_def by blast
  show "set w \<subseteq> set ''abcdefghijklmnopqrstuvwxyz''" if "w \<in> set (clean_text text)" for w
    using clean_text_normalized [OF that] unfolding normalized_def by blast
  show "clean_text (u @ c # v) = clean_text (u @ v)" if "\<not> (ascii_letter c \<or> isspace c)"
    using that by (simp add: clean_text_spec spec_tokenize_def)
  show "clean_text ''don't'' = [''dont'']" by code_simp
  show "clean_text (''Don't  STOP'' @ [CHR 0x0A] @ ''me now 42'') = [''dont'', ''stop'', ''me'', ''now'']"
    by code_simp
qed

theorem clean_text_deletes_witness:
  "clean_text ''don't'' = spec_tokenize ''don't''
   \<and> list_all (\<lambda>w. w \<noteq> [] \<and> set w \<subseteq> set ''abcdefghijklmnopqrstuvwxyz'') (clean_text ''don't'')
   \<and> clean_text (''don'' @ CHR 0x27 # ''t'') = clean_text (''don'' @ ''t'')"
proof -
  have deleted: "\<not> (ascii_letter CHR 0x27 \<or> isspace CHR 0x27)"
    by (simp add: ascii_letter_def isspace_def code_point_def)
  show ?thesis
    using clean_text_deletes [of "''don't''" "CHR 0x27" "''don''" "''t''"] deleted
    unfolding list_all_iff by blast
qed

section \<open>The running totals\<close>

lemma set_update_subset: "set (AList.update k v al) \<subseteq> insert (k, v) (set al)"
  by (induction al) auto

lemma counted_increment:
  assumes "counted word_frequencies" "normalized word"
  shows "counted (increment word_frequencies word)"
proof -
  let ?n = "(case map_of word_frequencies word of None \<Rightarrow> 0 | Some n \<Rightarrow> n) + 1"
  have "1 \<le> ?n"
  proof (cases "map_of word_frequencies word")
    case None
    then show ?thesis by simp
  next
    case (Some n)
    then have "(word, n) \<in> set word_frequencies" by (rule map_of_SomeD)
    with assms(1) have "1 \<le> n" by (auto simp: counted_def)
    with Some show ?thesis by simp
  qed
  moreover have "set (increment word_frequencies word) \<subseteq> insert (word, ?n) (set word_frequencies)"
    unfolding increment_def by (rule set_update_subset)
  ultimately show ?thesis
    using assms by (auto simp: counted_def increment_def distinct_update)
qed

lemma counted_words:
  "counted word_frequencies \<Longrightarrow> \<forall>word\<in>set words. normalized word \<Longrightarrow>
   counted (foldl increment word_frequencies words)"
  by (induction words arbitrary: word_frequencies) (auto simp: counted_increment)

lemma counted_chunk: "counted word_frequencies \<Longrightarrow> counted (count_chunk word_frequencies chunk)"
  unfolding count_chunk_def
  by (rule counted_words) (simp_all add: clean_text_normalized)

lemma counted_chunks:
  "counted word_frequencies \<Longrightarrow> counted (foldl count_chunk word_frequencies chunks)"
  by (induction chunks arbitrary: word_frequencies) (auto simp: counted_chunk)

lemma counted_batches:
  "counted word_frequencies \<Longrightarrow> aggregate_batches word_frequencies batches = Inr result \<Longrightarrow>
   counted result"
proof (induction batches arbitrary: word_frequencies)
  case Nil
  then show ?case by simp
next
  case (Cons chunk_batch batches)
  from Cons.prems(2) obtain merged_chunks where
    "aggregate_batches (foldl count_chunk word_frequencies merged_chunks) batches = Inr result"
    by (auto split: sum.splits)
  moreover have "counted (foldl count_chunk word_frequencies merged_chunks)"
    using Cons.prems(1) by (rule counted_chunks)
  ultimately show ?case by (rule Cons.IH [rotated])
qed

lemma one_batch:
  "retrieve_chunks_in_batches \<lparr>pdf_chunks = Some [row], word_frequencies_table = table\<rparr> 1000
     = Inr [[chunk_text row]]"
  by (simp add: retrieve_chunks_in_batches_def)

text \<open>
  C10. Whatever the chunk table holds and whatever the batch size, when
  \<open>process_chunks_in_batches\<close> returns, the map it returns has each key once, every key is
  a non-empty string of lowercase letters a-z, and every count is at least 1.
\<close>

theorem process_chunks_in_batches_keys:
  assumes "process_chunks_in_batches db batch_size = Inr (word_frequencies, db')"
  shows "distinct (map fst word_frequencies)
         \<and> (\<forall>(word, count) \<in> set word_frequencies.
               word \<noteq> [] \<and> set word \<subseteq> set ''abcdefghijklmnopqrstuvwxyz'' \<and> 1 \<le> count)"
proof -
  from assms obtain batches where "aggregate_batches [] batches = Inr word_frequencies"
    by (auto simp: process_chunks_in_batches_def split: sum.splits)
  moreover have "counted []" by (simp add: counted_def)
  ultimately have "counted word_frequencies" by (rule counted_batches [rotated])
  then show ?thesis unfolding counted_def normalized_def by blast
qed

theorem process_chunks_in_batches_keys_witness:
  "process_chunks_in_batches
     \<lparr>pdf_chunks = Some [\<lparr>row_id = 1, file_name = ''a.pdf'', chunk_index = 0,
                           chunk_text = ''Don't stop 42''\<rparr>],
      word_frequencies_table = Some Map.empty\<rparr> 1000
     = Inr ([(''dont'', 1), (''stop'', 1)],
            \<lparr>pdf_chunks = Some [\<lparr>row_id = 1, file_name = ''a.pdf'', chunk_index = 0,
                                  chunk_text = ''Don't stop 42''\<rparr>],
             word_frequencies_table = Some [''dont'' \<mapsto> 1, ''stop'' \<mapsto> 1]\<rparr>)
   \<and> distinct (map fst [(''dont'', 1 :: int), (''stop'', 1)])
   \<and> list_all (\<lambda>(word, count). word \<noteq> [] \<and> set word \<subseteq> set ''abcdefghijklmnopqrstuvwxyz'' \<and> 1 \<le> count)
        [(''dont'', 1 :: int), (''stop'', 1)]"
proof -
  have counts: "aggregate_batches [] [[''Don't stop 42'']] = Inr [(''dont'', 1), (''stop'', 1)]"
    by code_simp
  have run: "process_chunks_in_batches
     \<lparr>pdf_chunks = Some [\<lparr>row_id = 1, file_name = ''a.pdf'', chunk_index = 0,
                           chunk_text = ''Don't stop 42''\<rparr>],
      word_frequencies_table = Some Map.empty\<rparr> 1000
     = Inr ([(''dont'', 1), (''stop'', 1)],
            \<lparr>pdf_chunks = Some [\<lparr>row_id = 1, file_name = ''a.pdf'', chunk_index = 0,
                                  chunk_text = ''Don't stop 42''\<rparr>],
             word_frequencies_table = Some [''dont'' \<mapsto> 1, ''stop'' \<mapsto> 1]\<rparr>)"
    by (simp add: process_chunks_in_batches_def one_batch counts store_word_frequencies_def
        upsert_def del: aggregate_batches.simps)
  show ?thesis
    using process_chunks_in_batches_keys [OF run] run unfolding list_all_iff by blast
qed

section \<open>Storing the frequencies\<close>

lemma upsert_other: "other \<noteq> word \<Longrightarrow> upsert table (word, delta) other = table other"
  by (simp add: upsert_def split: option.splits)

lemma upsert_word:
  "upsert table (word, delta) word
     = Some (case table word of None \<Rightarrow> delta | Some frequency \<Rightarrow> frequency + delta)"
  by (simp add: upsert_def split: option.splits)

lemma foldl_upsert_other:
  "word \<notin> fst ` set counts \<Longrightarrow> foldl upsert table counts word = table word"
  by (induction counts arbitrary: table) (auto simp: upsert_other)

lemma foldl_upsert_word:
  assumes "distinct (map fst counts)" "(word, delta) \<in> set counts"
  shows "foldl upsert table counts word
           = Some (case table word of None \<Rightarrow> delta | Some frequency \<Rightarrow> frequency + delta)"
  using assms
proof (induction counts arbitrary: table)
  case Nil
  then show ?case by simp
next
  case (Cons item counts)
  obtain w d where item: "item = (w, d)" by (cases item)
  show ?case
  proof (cases "w = word")
    case True
    with Cons.prems item have "d = delta" "word \<notin> fst ` set counts"
      by (auto simp: image_iff)
    then show ?thesis
      using item True by (simp add: foldl_upsert_other upsert_word)
  next
    case False
    with Cons.prems item have "distinct (map fst counts)" "(word, delta) \<in> set counts"
      by auto
    then show ?thesis
      using Cons.IH [of "upsert table item"] item False by (simp add: upsert_other)
  qed
qed

text \<open>
  C4. Storing counts into the frequency table, for a word of the counts with its delta:
  when the table has no row for the word, the row it gets holds the delta; when it has
  one, the row holds the stored count plus the delta. Storing \<open>{"cat": 3}\<close> into the empty
  table and then, in a second call, \<open>{"cat": 2}\<close> leaves the count 5. The deltas and the
  sum are taken within the range of an SQLite \<open>INTEGER\<close>.
\<close>

theorem store_word_frequencies_accumulates:
  "(word_frequencies_table db = Some table \<and> distinct (map fst counts) \<and> (word, delta) \<in> set counts
      \<and> (\<forall>(w, d) \<in> set counts. int64 d)
      \<and> int64 ((case table word of None \<Rightarrow> 0 | Some frequency \<Rightarrow> frequency) + delta) \<longrightarrow>
      (\<exists>table'. store_word_frequencies counts db = Inr (db\<lparr>word_frequencies_table := Some table'\<rparr>)
         \<and> table' word = Some (case table word of None \<Rightarrow> delta | Some frequency \<Rightarrow> frequency + delta)))
   \<and> store_word_frequencies [(''cat'', 3)] \<lparr>pdf_chunks = rows, word_frequencies_table = Some Map.empty\<rparr>
       = Inr \<lparr>pdf_chunks = rows, word_frequencies_table = Some [''cat'' \<mapsto> 3]\<rparr>
   \<and> store_word_frequencies [(''cat'', 2)] \<lparr>pdf_chunks = rows, word_frequencies_table = Some [''cat'' \<mapsto> 3]\<rparr>
       = Inr \<lparr>pdf_chunks = rows, word_frequencies_table = Some [''cat'' \<mapsto> 5]\<rparr>"
proof (intro conjI impI)
  assume h: "word_frequencies_table db = Some table \<and> distinct (map fst counts) \<and> (word, delta) \<in> set counts
      \<and> (\<forall>(w, d) \<in> set counts. int64 d)
      \<and> int64 ((case table word of None \<Rightarrow> 0 | Some frequency \<Rightarrow> frequency) + delta)"
  then have "counts \<noteq> []" by auto
  with h have "store_word_frequencies counts db
                 = Inr (db\<lparr>word_frequencies_table := Some (foldl upsert table counts)\<rparr>)"
    by (simp add: store_word_frequencies_def)
  moreover have "foldl upsert table counts word
                   = Some (case table word of None \<Rightarrow> delta | Some frequency \<Rightarrow> frequency + delta)"
    using h by (simp add: foldl_upsert_word)
  ultimately show "\<exists>table'. store_word_frequencies counts db = Inr (db\<lparr>word_frequencies_table := Some table'\<rparr>)
         \<and> table' word = Some (case table word of None \<Rightarrow> delta | Some frequency \<Rightarrow> frequency + delta)"
    by blast
next
  show "store_word_frequencies [(''cat'', 3)] \<lparr>pdf_chunks = rows, word_frequencies_table = Some Map.empty\<rparr>
       = Inr \<lparr>pdf_chunks = rows, word_frequencies_table = Some [''cat'' \<mapsto> 3]\<rparr>"
    by (simp add: store_word_frequencies_def upsert_def)
next
  show "store_word_frequencies [(''cat'', 2)] \<lparr>pdf_chunks = rows, word_frequencies_table = Some [''cat'' \<mapsto> 3]\<rparr>
       = Inr \<lparr>pdf_chunks = rows, word_frequencies_table = Some [''cat'' \<mapsto> 5]\<rparr>"
    by (simp add: store_word_frequencies_def upsert_def)
qed

theorem store_word_frequencies_accumulates_witness:
  "\<exists>table'.
      store_word_frequencies [(''cat'', 2), (''dog'', 1)]
        \<lparr>pdf_chunks = None, word_frequencies_table = Some [''cat'' \<mapsto> 3]\<rparr>
        = Inr \<lparr>pdf_chunks = None, word_frequencies_table = Some table'\<rparr>
      \<and> table' ''cat'' = Some 5"
proof -
  have range: "int64 2 \<and> int64 1 \<and> int64 (3 + 2)"
    by (simp add: int64_def)
  show ?thesis
    using store_word_frequencies_accumulates [of "\<lparr>pdf_chunks = None, word_frequencies_table = Some [''cat'' \<mapsto> 3]\<rparr>"
        "[''cat'' \<mapsto> 3]" "[(''cat'', 2), (''dog'', 1)]" "''cat''" 2 None] range
    by simp
qed

section \<open>Two documents, end to end\<close>

lemma setup_database_reset:
  "setup_database True db = \<lparr>pdf_chunks = Some [], word_frequencies_table = Some Map.empty\<rparr>"
  by (simp add: setup_database_def)

lemma task_skips_empty_text:
  "extract_text_from_pdf pdf_file = [] \<Longrightarrow>
   extract_split_and_store_pdf extract_text_from_pdf split_text_into_chunks busy pdf_file chunk_size db = db"
  by (simp add: extract_split_and_store_pdf_def)

lemma task_stores_chunks:
  assumes "extract_text_from_pdf pdf_file = content" "content \<noteq> []"
    and "split_text_into_chunks content chunk_size = Inr chunks" "chunks \<noteq> []"
    and "pdf_chunks db = Some rows" "\<exists>attempt<999. \<not> busy pdf_file attempt"
  shows "extract_split_and_store_pdf extract_text_from_pdf split_text_into_chunks busy pdf_file chunk_size db
           = db\<lparr>pdf_chunks := Some (insert_chunks pdf_file 0 chunks rows)\<rparr>"
  using assms store_chunks_in_db_stores [OF assms(5,4,6), of pdf_file]
  by (simp add: extract_split_and_store_pdf_def)

lemma the_cat_sat:
  "aggregate_batches [] [[''the cat sat'']] = Inr [(''the'', 1), (''cat'', 1), (''sat'', 1)]"
  by code_simp

text \<open>
  C5. Document \<open>a\<close> extracts to "the cat sat", document \<open>b\<close> to the empty string, the
  splitter makes one chunk of "the cat sat", and the store of \<open>a\<close> finds the database free
  at one of its attempts. Then, in whichever order the two tasks reach the database,
  ingestion after a reset leaves exactly one row in the chunk table, the chunk of \<open>a\<close>
  with ordinal 0, and none for \<open>b\<close>; and the whole run returns the map
  \<open>{"the": 1, "cat": 1, "sat": 1}\<close> and stores it.
\<close>

theorem two_documents_end_to_end:
  assumes "extract_text_from_pdf a = ''the cat sat''" and "extract_text_from_pdf b = []"
    and "split_text_into_chunks ''the cat sat'' chunk_size = Inr [''the cat sat'']"
    and "\<exists>attempt<999. \<not> busy a attempt"
    and "pdf_files = [a, b] \<or> pdf_files = [b, a]"
  shows "process_files_in_parallel extract_text_from_pdf split_text_into_chunks busy pdf_files True
           chunk_size db
           = \<lparr>pdf_chunks = Some [\<lparr>row_id = 1, file_name = basename a, chunk_index = 0,
                                   chunk_text = ''the cat sat''\<rparr>],
              word_frequencies_table = Some Map.empty\<rparr>
         \<and> update_database extract_text_from_pdf split_text_into_chunks busy pdf_files True chunk_size db
             = Inr ([(''the'', 1), (''cat'', 1), (''sat'', 1)],
                    \<lparr>pdf_chunks = Some [\<lparr>row_id = 1, file_name = basename a, chunk_index = 0,
                                          chunk_text = ''the cat sat''\<rparr>],
                     word_frequencies_table = Some [''the'' \<mapsto> 1, ''cat'' \<mapsto> 1, ''sat'' \<mapsto> 1]\<rparr>)"
proof -
  let ?fresh = "\<lparr>pdf_chunks = Some [], word_frequencies_table = Some Map.empty\<rparr>"
  let ?db1 = "\<lparr>pdf_chunks = Some [\<lparr>row_id = 1, file_name = basename a, chunk_index = 0,
                                     chunk_text = ''the cat sat''\<rparr>],
                word_frequencies_table = Some Map.empty\<rparr>"
  let ?task = "\<lambda>db pdf_file. extract_split_and_store_pdf extract_text_from_pdf split_text_into_chunks
                 busy pdf_file chunk_size db"
  have skip: "?task d b = d" for d
    using assms(2) by (rule task_skips_empty_text)
  have stored: "?task ?fresh a = ?db1"
    using task_stores_chunks
      [of extract_text_from_pdf a "''the cat sat''" split_text_into_chunks chunk_size
        "[''the cat sat'']" ?fresh "[]" busy]
      assms(1,3,4)
    by (simp add: insert_chunk_def)
  have ingest: "process_files_in_parallel extract_text_from_pdf split_text_into_chunks busy pdf_files
                  True chunk_size d = ?db1" for d
    using assms(5) by (auto simp: process_files_in_parallel_def setup_database_reset skip stored)
  have "process_chunks_in_batches ?db1 1000
          = Inr ([(''the'', 1), (''cat'', 1), (''sat'', 1)],
                 \<lparr>pdf_chunks = Some [\<lparr>row_id = 1, file_name = basename a, chunk_index = 0,
                                       chunk_text = ''the cat sat''\<rparr>],
                  word_frequencies_table = Some [''the'' \<mapsto> 1, ''cat'' \<mapsto> 1, ''sat'' \<mapsto> 1]\<rparr>)"
    by (simp add: process_chunks_in_batches_def one_batch the_cat_sat store_word_frequencies_def
        upsert_def del: aggregate_batches.simps)
  then show ?thesis
    by (simp add: update_database_def ingest)
qed

theorem two_documents_end_to_end_witness:
  "update_database (\<lambda>pdf_file. if pdf_file = ''books/a.pdf'' then ''the cat sat'' else [])
     (\<lambda>content chunk_size. Inr [content]) (\<lambda>pdf_file attempt. False)
     [''books/a.pdf'', ''books/b.pdf''] True 8000
     \<lparr>pdf_chunks = None, word_frequencies_table = None\<rparr>
     = Inr ([(''the'', 1), (''cat'', 1), (''sat'', 1)],
            \<lparr>pdf_chunks = Some [\<lparr>row_id = 1, file_name = ''a.pdf'', chunk_index = 0,
                                  chunk_text = ''the cat sat''\<rparr>],
             word_frequencies_table = Some [''the'' \<mapsto> 1, ''cat'' \<mapsto> 1, ''sat'' \<mapsto> 1]\<rparr>)"
proof -
  have name: "basename ''books/a.pdf'' = ''a.pdf''"
    by (simp add: basename_def)
  have free: "\<exists>attempt :: nat. attempt < 999"
    by (rule exI [of _ 0]) simp
  show ?thesis
    using two_documents_end_to_end
      [of "\<lambda>pdf_file. if pdf_file = ''books/a.pdf'' then ''the cat sat'' else []"
        "''books/a.pdf''" "''books/b.pdf''" "\<lambda>content chunk_size. Inr [content]" 8000
        "\<lambda>pdf_file attempt. False" "[''books/a.pdf'', ''books/b.pdf'']"
        "\<lparr>pdf_chunks = None, word_frequencies_table = None\<rparr>"]
    by (simp add: name free)
qed

end
